theory Spec2Isabelle
  imports Main "HOL-Library.Word"
begin

section \<open>Calls to the outside world\<close>

text \<open>
  Both programs (the camera node of \<^verbatim>\<open>dataset_gen/pi\<close> and the server worker of
  \<^verbatim>\<open>stream_server\<close>) act on the world only through calls: to the logger, the
  semaphore, the camera library, the frame queue, the socket, the decoder. Each call the
  source makes is an event; a run appends its events, in program order, to the
  \<open>events\<close> field of the state. Whatever a call returns (the semaphore's value, the
  result of \<^verbatim>\<open>write\<close>, the decoder's return code) is an input of the model.
\<close>

type_synonym byte = "8 word"
type_synonym ptr = nat

datatype level = INFO | WARN | ERROR

datatype event =
    Log level string
  | SemGetValue
  | SemPost
  | SemDestroy
  | QueueRequest nat
  | QueueEnqueue ptr
  | RequestReuse nat
  | Close int
  | Socket
  | Connect int
  | Write int "byte list"
  | WriteError int int
  | RecvTimestamp
  | RecvFrameSize
  | RecvPayload nat
  | TsEnqueue "byte list" int
  | TsDequeue "byte list option"
  | FlushDecoder
  | DecodePacket "byte list"
  | RecvFrame int
  | Free
  | CleanupDecoder
  | CleanupQueue

record traced =
  events :: "event list"

definition emit :: "event \<Rightarrow> 'a traced_scheme \<Rightarrow> 'a traced_scheme" where
  "emit e s = s\<lparr>events := events s @ [e]\<rparr>"

text \<open>The events a run added to a state whose trace was \<open>old\<close>.\<close>

definition added :: "event list \<Rightarrow> event list \<Rightarrow> event list" where
  "added old new = drop (length old) new"

section \<open>Constants of the platform\<close>

definition SIGUSR2 :: int where "SIGUSR2 = 12"

definition EINTR :: int where "EINTR = 4"
definition EAGAIN :: int where "EAGAIN = 11"
definition ENODATA :: int where "ENODATA = 61"

definition INT_MIN :: int where "INT_MIN = - (2 ^ 31)"
definition INT_MAX :: int where "INT_MAX = 2 ^ 31 - 1"

text \<open>A value a C \<^verbatim>\<open>int\<close> can hold. Signed overflow is undefined behaviour.\<close>

definition c_int :: "int \<Rightarrow> bool" where
  "c_int x \<longleftrightarrow> INT_MIN \<le> x \<and> x \<le> INT_MAX"

section \<open>The camera node\<close>

subsection \<open>State\<close>

text \<open>
  \<^verbatim>\<open>libcamera::Request\<close>: the status and the cookie are all the handler reads.
\<close>

datatype req_status = RequestPending | RequestComplete | RequestCancelled

record request =
  status :: req_status
  cookie :: nat

text \<open>
  The fields of \<^verbatim>\<open>camera_handler_t\<close> (camera_handler.h) the operations below
  read or write. \<open>next_req_idx\<close>, \<open>frame_bytes\<close> and \<open>dma_frame_buffers\<close> are C
  \<^verbatim>\<open>int\<close>s.
\<close>

record camera_handler =
  requests :: "request list"
  mmap_buffers :: "ptr list"
  next_req_idx :: int
  frame_bytes :: int
  dma_frame_buffers :: int

text \<open>
  The globals of main.cpp: \<^verbatim>\<open>running\<close>, \<^verbatim>\<open>sockfd\<close> and \<^verbatim>\<open>cam\<close>.
\<close>

record node = traced +
  running :: int
  sockfd :: int
  cam :: camera_handler

text \<open>
  The two \<^verbatim>\<open>std::runtime_error\<close>s of \<^verbatim>\<open>queue_request\<close>, told apart by
  their messages ("Buffer is not ready for requeuing", "Failed to queue request"), and
  the places where the C++ has no defined behaviour (signed overflow, a vector read out
  of range).
\<close>

datatype error = BufferNotReady | QueueFailed | Undefined

subsection \<open>camera\_handler\_t::init\_frame\_config\<close>

text \<open>
  config.h is not among the sources: the two dimensions are taken as the configured
  non-negative values. The three plane sizes are \<^verbatim>\<open>unsigned int\<close>s (32 bits), the
  sum is stored into the \<^verbatim>\<open>int\<close> field \<^verbatim>\<open>frame_bytes_\<close>.
\<close>

record config =
  dma_buffers :: int
  frame_width :: nat
  frame_height :: nat

definition init_frame_config :: "config \<Rightarrow> camera_handler \<Rightarrow> camera_handler" where
  "init_frame_config c h =
     (let y_plane_bytes = (of_nat (frame_width c * frame_height c) :: 32 word);
          u_plane_bytes = y_plane_bytes div 4;
          v_plane_bytes = u_plane_bytes
      in h\<lparr>dma_frame_buffers := dma_buffers c,
            frame_bytes := sint (y_plane_bytes + u_plane_bytes + v_plane_bytes)\<rparr>)"

subsection \<open>camera\_handler\_t::queue\_request\<close>

text \<open>
  \<open>enqueued_bufs\<close> is the value \<^verbatim>\<open>sem_getvalue\<close> stores, \<open>vendor_ret\<close> the value
  \<^verbatim>\<open>camera_->queueRequest\<close> returns. The result pairs the exception thrown, if
  any, with the state the call leaves behind.
\<close>

definition queue_request :: "int \<Rightarrow> int \<Rightarrow> node \<Rightarrow> error option \<times> node" where
  "queue_request enqueued_bufs vendor_ret p =
     (let h = cam p;
          p1 = emit SemGetValue p
      in if \<not> c_int (dma_frame_buffers h - 2) then (Some Undefined, p1)
         else if enqueued_bufs > dma_frame_buffers h - 2 then
           (Some BufferNotReady, emit (Log ERROR ''Buffer is not ready for requeuing'') p1)
         else if \<not> (0 \<le> next_req_idx h \<and> next_req_idx h < int (length (requests h))) then
           (Some Undefined, p1)
         else
           (let p2 = emit (QueueRequest (cookie (requests h ! nat (next_req_idx h)))) p1
            in if vendor_ret < 0 then
                 (Some QueueFailed, emit (Log ERROR ''Failed to queue request'') p2)
               else if \<not> c_int (next_req_idx h + 1) then (Some Undefined, p2)
               else
                 (None, p2\<lparr>cam := h\<lparr>next_req_idx :=
                            (next_req_idx h + 1) mod int (length (requests h))\<rparr>\<rparr>)))"

subsection \<open>camera\_handler\_t::request\_complete\<close>

definition request_complete :: "request \<Rightarrow> node \<Rightarrow> error option \<times> node" where
  "request_complete r p =
     (if status r = RequestCancelled then (None, p)
      else
        (let p1 = emit (Log INFO ''Request completed'') p
         in if \<not> cookie r < length (mmap_buffers (cam p)) then (Some Undefined, p1)
            else
              (let data = mmap_buffers (cam p) ! cookie r;
                   p2 = emit (QueueEnqueue data) p1;
                   p3 = emit SemPost p2
               in (None, emit (RequestReuse (cookie r)) p3))))"

subsection \<open>The signal handlers of main.cpp\<close>

definition socket_disconnect_handler :: "int \<Rightarrow> node \<Rightarrow> node" where
  "socket_disconnect_handler signo p =
     (if signo = SIGUSR2 \<and> sockfd p \<ge> 0 then
        emit (Log INFO ''Socket disconnected by timer'')
          ((emit (Close (sockfd p)) p)\<lparr>sockfd := - 1\<rparr>)
      else p)"


subsection \<open>stream\_pkt and init\_network\<close>

text \<open>
  What the operating system answers during one pass through the loop of
  \<^verbatim>\<open>stream_pkt\<close>: whether the watchdog's \<^verbatim>\<open>SIGUSR2\<close> was delivered since
  the previous pass, what \<^verbatim>\<open>socket\<close> and \<^verbatim>\<open>connect\<close> return and the
  \<^verbatim>\<open>errno\<close> they leave, and what \<^verbatim>\<open>write\<close> does: \<open>Wrote n\<close> when the
  kernel would take \<open>n\<close> bytes (it never takes more than it is offered), or
  \<open>WriteFailed errno\<close>.
\<close>

datatype write_result = Wrote nat | WriteFailed int

record net_env =
  sigusr2 :: bool
  socket_ret :: int
  connect_ret :: int
  errno_v :: int
  write_res :: write_result

definition init_network :: "net_env \<Rightarrow> node \<Rightarrow> int \<times> node" where
  "init_network e p =
     (let p1 = emit Socket (p\<lparr>sockfd := socket_ret e\<rparr>)
      in if sockfd p1 < 0 then
           (- errno_v e, emit (Log ERROR ''Failed to create socket'') p1)
         else
           (let p2 = emit (Connect (sockfd p1)) p1
            in if connect_ret e < 0 then
                 (- errno_v e, emit (Log ERROR ''Failed to connect to server'') p2)
               else (0, p2)))"

definition pending_signal :: "net_env \<Rightarrow> node \<Rightarrow> node" where
  "pending_signal e p = (if sigusr2 e then socket_disconnect_handler SIGUSR2 p else p)"

text \<open>
  Modelled from the spec: connection.h is not among the sources. \<^verbatim>\<open>conn.sockfd\<close> is
  the global \<^verbatim>\<open>sockfd\<close> (the one the watchdog closes and \<^verbatim>\<open>init_network\<close>
  reopens), as the spec's "if sockfd < 0 (closed by watchdog or shutdown) re-establish
  the connection before writing" has it.

  \<open>reconnect\<close> is the top of the loop body (the test of \<^verbatim>\<open>conn.sockfd\<close> and the
  call of \<^verbatim>\<open>init_network\<close>): it gives the value of \<^verbatim>\<open>ret\<close>, 0 when the
  socket was open, and the state in which \<^verbatim>\<open>write\<close> is called.
\<close>

definition reconnect :: "net_env \<Rightarrow> node \<Rightarrow> int \<times> node" where
  "reconnect e p =
     (let p0 = pending_signal e p
      in if sockfd p0 < 0 then init_network e p0 else (0, p0))"

text \<open>
  The packet is the list \<open>data\<close>, \<^verbatim>\<open>size\<close> its length. Each pass of the loop
  consumes one answer of the operating system; when the answers run out with bytes still
  to write, the call has not returned (\<open>None\<close>).
\<close>

fun stream_pkt_loop :: "net_env list \<Rightarrow> byte list \<Rightarrow> nat \<Rightarrow> node \<Rightarrow> int option \<times> node" where
  "stream_pkt_loop [] data total_bytes_written p =
     (if total_bytes_written < length data then (None, p)
      else (Some 0, emit (Log INFO ''Transmitted frame'') p))"
| "stream_pkt_loop (e # es) data total_bytes_written p =
     (if total_bytes_written < length data then
        (case reconnect e p of
           (ret, p1) \<Rightarrow>
             if ret < 0 then (Some ret, p1)
             else
               (case write_res e of
                  WriteFailed en \<Rightarrow>
                    (let p2 = emit (WriteError (sockfd p1) en) p1
                     in if en = EINTR then stream_pkt_loop es data total_bytes_written p2
                        else (Some (- 1), emit (Log ERROR ''Error transmitting frame'') p2))
                | Wrote n \<Rightarrow>
                    (let chunk = take n (drop total_bytes_written data);
                         p2 = emit (Write (sockfd p1) chunk) p1
                     in stream_pkt_loop es data (total_bytes_written + length chunk) p2)))
      else (Some 0, emit (Log INFO ''Transmitted frame'') p))"


text \<open>The bytes handed to the kernel, in order.\<close>

fun bytes_written :: "event list \<Rightarrow> byte list" where
  "bytes_written [] = []"
| "bytes_written (Write fd chunk # evs) = chunk @ bytes_written evs"
| "bytes_written (ev # evs) = bytes_written evs"

text \<open>The bytes handed to the kernel for the socket \<open>fd\<close>, in order.\<close>

fun bytes_written_to :: "int \<Rightarrow> event list \<Rightarrow> byte list" where
  "bytes_written_to fd [] = []"
| "bytes_written_to fd (Write fd' chunk # evs) =
     (if fd' = fd then chunk else []) @ bytes_written_to fd evs"
| "bytes_written_to fd (ev # evs) = bytes_written_to fd evs"

section \<open>The server worker\<close>

subsection \<open>State and inputs\<close>

text \<open>
  What the socket, the queue and the decoder answer during one pass through the loop of
  \<^verbatim>\<open>stream_mgr\<close>: for each of the three \<^verbatim>\<open>recv_from_stream\<close> calls its
  return value and what it left in the buffer, and the return values of
  \<^verbatim>\<open>flush_decoder\<close>, \<^verbatim>\<open>enqueue\<close>, \<^verbatim>\<open>decode_packet\<close> and
  \<^verbatim>\<open>recv_frame\<close>. A pass reads only the answers of the calls it makes.
\<close>

record iter_env =
  ts_size :: int
  ts_bytes :: "byte list"
  flush_ret :: int
  enqueue_ret :: int
  fs_size :: int
  frame_size :: "32 word"
  payload_size :: int
  payload :: "byte list"
  decode_ret :: int
  recv_frame_ret :: int

text \<open>
  The locals of \<^verbatim>\<open>stream_mgr\<close> that are live in the loop. The source's
  \<^verbatim>\<open>sockfd\<close> is \<open>sockfd_srv\<close> here.
\<close>

record worker = traced +
  incoming_stream :: bool
  new_frame :: bool
  ret :: int
  timestamp_queue :: "byte list list"
  sockfd_srv :: int
  clientfd :: int

text \<open>Where control goes after a block: on, to the top of the loop, or out of it.\<close>

datatype flow = Fallthrough | Continue | Break

text \<open>The eight bytes \<^verbatim>\<open>memcmp\<close> compares the timestamp with.\<close>

definition EOSTREAM :: "byte list" where
  "EOSTREAM = map (\<lambda>c. of_nat (of_char c)) ''EOSTREAM''"

subsection \<open>The timestamp queue\<close>

text \<open>
  Modelled from the spec: queue.h is not among the sources. The spec's "FIFO of u64
  timestamps": \<^verbatim>\<open>enqueue\<close> appends the eight bytes when it returns 0 (\<open>r\<close> is its
  return value, which the worker stores in \<^verbatim>\<open>ret\<close>); \<^verbatim>\<open>dequeue\<close> removes the
  oldest element, and removes nothing from an empty queue.
\<close>

definition enqueue :: "byte list \<Rightarrow> int \<Rightarrow> worker \<Rightarrow> worker" where
  "enqueue ts r w =
     emit (TsEnqueue ts r)
       (w\<lparr>ret := r,
          timestamp_queue := (if r = 0 then timestamp_queue w @ [ts] else timestamp_queue w)\<rparr>)"

definition dequeue :: "worker \<Rightarrow> worker" where
  "dequeue w =
     (case timestamp_queue w of
        [] \<Rightarrow> emit (TsDequeue None) w
      | ts # q \<Rightarrow> emit (TsDequeue (Some ts)) (w\<lparr>timestamp_queue := q\<rparr>))"

subsection \<open>stream\_mgr: the loop and the cleanup\<close>

text \<open>
  \<^verbatim>\<open>ENCODED_FRAME_BUF_SIZE\<close> is a macro of a header that is not among the sources:
  it is a parameter. \<open>input_block\<close> is the body of \<^verbatim>\<open>if (incoming_stream)\<close>,
  \<open>frame_block\<close> the body of \<^verbatim>\<open>if (new_frame)\<close>.
\<close>

definition input_block :: "nat \<Rightarrow> iter_env \<Rightarrow> worker \<Rightarrow> worker \<times> flow" where
  "input_block ENCODED_FRAME_BUF_SIZE e w =
     (let w1 = emit RecvTimestamp w
      in if ts_size e \<noteq> 8 then
           (emit (Log ERROR ''Received unexpected timestamp size with %zd bytes from cam %s'') w1,
            Break)
         else if ts_bytes e = EOSTREAM then
           (let w2 = emit (Log INFO ''Received end of stream signal'') w1;
                w3 = w2\<lparr>incoming_stream := False\<rparr>;
                w4 = emit FlushDecoder w3
            in (w4\<lparr>ret := flush_ret e\<rparr>, Continue))
         else
           (let w2 = enqueue (ts_bytes e) (enqueue_ret e) w1
            in if ret w2 \<noteq> 0 then (w2, Break)
               else
                 (let w3 = emit RecvFrameSize w2
                  in if fs_size e \<noteq> 4 then
                       (emit (Log ERROR
                          ''Received unexpected frame size buffer with %ld bytes from cam %s'') w3,
                        Break)
                     else if unat (frame_size e) > ENCODED_FRAME_BUF_SIZE then
                       (emit (Log ERROR
                          ''Received frame size that is larger than the allocated buffer of %d bytes: %d'') w3,
                        Break)
                     else
                       (let w4 = emit (RecvPayload (unat (frame_size e))) w3
                        in if payload_size e \<noteq> int (unat (frame_size e)) then
                             (emit (Log ERROR
                                ''Received unexpected frame size with %zd bytes from cam %s'') w4,
                              Break)
                           else
                             (let w5 = emit (Log INFO
                                    ''Received frame with %zd bytes from cam %s with timestamp %lu'') w4;
                                  w6 = (emit (DecodePacket (payload e)) w5)\<lparr>ret := decode_ret e\<rparr>
                              in if ret w6 \<noteq> 0 then (w6, Break) else (w6, Fallthrough))))))"

definition frame_block :: "iter_env \<Rightarrow> worker \<Rightarrow> worker \<times> flow" where
  "frame_block e w =
     (let w1 = (emit (RecvFrame (recv_frame_ret e)) w)\<lparr>ret := recv_frame_ret e\<rparr>
      in if ret w1 = EAGAIN then (w1, Continue)
         else if ret w1 = ENODATA then (emit (Log INFO ''Recvd EOF from decoder'') w1, Break)
         else if ret w1 \<noteq> 0 then (w1, Break)
         else
           (let w2 = emit (Log INFO ''Recvd frame from decoder'') w1;
                w3 = dequeue w2
            in (emit (Log INFO ''Dequeued timestamp from cam %s with timestamp %lu'') w3,
                Continue)))"

definition loop_body :: "nat \<Rightarrow> iter_env \<Rightarrow> worker \<Rightarrow> worker \<times> flow" where
  "loop_body ENCODED_FRAME_BUF_SIZE e w =
     (case (if incoming_stream w then input_block ENCODED_FRAME_BUF_SIZE e w
            else (w, Fallthrough)) of
        (w1, Fallthrough) \<Rightarrow> if new_frame w1 then frame_block e w1 else (w1, Continue)
      | (w1, fl) \<Rightarrow> (w1, fl))"

text \<open>
  \<^verbatim>\<open>while (true)\<close>: one answer per pass. The loop ends only by \<^verbatim>\<open>break\<close>; a
  result \<open>Continue\<close> is the state of a worker that is still in the loop when the
  answers run out, so the results over all lists of answers are the states the loop
  reaches.
\<close>

fun stream_mgr_loop :: "nat \<Rightarrow> iter_env list \<Rightarrow> worker \<Rightarrow> worker \<times> flow" where
  "stream_mgr_loop ENCODED_FRAME_BUF_SIZE [] w = (w, Continue)"
| "stream_mgr_loop ENCODED_FRAME_BUF_SIZE (e # es) w =
     (case loop_body ENCODED_FRAME_BUF_SIZE e w of
        (w1, Break) \<Rightarrow> (w1, Break)
      | (w1, fl) \<Rightarrow> stream_mgr_loop ENCODED_FRAME_BUF_SIZE es w1)"

text \<open>The code after the label \<^verbatim>\<open>cleanup\<close>.\<close>

definition cleanup :: "worker \<Rightarrow> worker" where
  "cleanup w =
     (let w1 = emit Free w;
          w2 = emit CleanupDecoder w1;
          w3 = emit CleanupQueue w2;
          w4 = (if sockfd_srv w3 \<ge> 0 then emit (Close (sockfd_srv w3)) w3 else w3)
      in if clientfd w4 \<ge> 0 then emit (Close (clientfd w4)) w4 else w4)"

text \<open>
  \<^verbatim>\<open>stream_mgr\<close> from the first pass of its loop on: \<open>w\<close> is the state in which
  the loop is entered, after the buffer, the queue, the decoder and the two sockets were
  set up. \<open>None\<close>: the worker has not left the loop.
\<close>

definition stream_mgr :: "nat \<Rightarrow> iter_env list \<Rightarrow> worker \<Rightarrow> worker option" where
  "stream_mgr ENCODED_FRAME_BUF_SIZE es w =
     (case stream_mgr_loop ENCODED_FRAME_BUF_SIZE es w of
        (w1, Break) \<Rightarrow> Some (cleanup w1)
      | (w1, fl) \<Rightarrow> None)"

definition loop_entry :: "int \<Rightarrow> int \<Rightarrow> worker" where
  "loop_entry sfd cfd =
     \<lparr>events = [], incoming_stream = True, new_frame = True, ret = 0, timestamp_queue = [],
      sockfd_srv = sfd, clientfd = cfd\<rparr>"

subsection \<open>Counting on the trace\<close>

fun enqueued_ev :: "event \<Rightarrow> bool" where
  "enqueued_ev (TsEnqueue ts r) = (r = 0)"
| "enqueued_ev ev = False"

fun dequeued_ev :: "event \<Rightarrow> bool" where
  "dequeued_ev (TsDequeue x) = True"
| "dequeued_ev ev = False"

fun frame_ev :: "event \<Rightarrow> bool" where
  "frame_ev (RecvFrame r) = (r = 0)"
| "frame_ev ev = False"

fun packet_ev :: "event \<Rightarrow> bool" where
  "packet_ev (DecodePacket bs) = True"
| "packet_ev ev = False"

text \<open>
  Timestamps enqueued (\<^verbatim>\<open>enqueue\<close> returned 0), timestamps dequeued (the worker
  takes and logs one timestamp at every call of \<^verbatim>\<open>dequeue\<close>, whose result it does
  not look at), frames the decoder emitted (\<^verbatim>\<open>recv_frame\<close> returned 0), and packets
  received in full: \<^verbatim>\<open>decode_packet\<close> is called on exactly those.
\<close>

definition timestamps_enqueued :: "event list \<Rightarrow> nat" where
  "timestamps_enqueued tr = length (filter enqueued_ev tr)"

definition timestamps_dequeued :: "event list \<Rightarrow> nat" where
  "timestamps_dequeued tr = length (filter dequeued_ev tr)"

definition frames_emitted :: "event list \<Rightarrow> nat" where
  "frames_emitted tr = length (filter frame_ev tr)"

definition packets_received :: "event list \<Rightarrow> nat" where
  "packets_received tr = length (filter packet_ev tr)"

text \<open>At every moment of the run, no more timestamps were dequeued than enqueued.\<close>

definition no_underflow :: "event list \<Rightarrow> bool" where
  "no_underflow tr \<longleftrightarrow>
     (\<forall>n \<in> {..length tr}.
        timestamps_dequeued (take n tr) \<le> timestamps_enqueued (take n tr))"


text \<open>The events that read a payload or hand one to the decoder.\<close>

fun payload_ev :: "event \<Rightarrow> bool" where
  "payload_ev (RecvPayload n) = True"
| "payload_ev (DecodePacket bs) = True"
| "payload_ev ev = False"

subsection \<open>Invariants of the loop\<close>

text \<open>
  \<open>underflow_free d q evs\<close>: starting from \<open>d\<close> timestamps dequeued and \<open>q\<close>
  enqueued, the events \<open>evs\<close> never take the first count above the second.
\<close>

fun underflow_free :: "nat \<Rightarrow> nat \<Rightarrow> event list \<Rightarrow> bool" where
  "underflow_free d q [] = True"
| "underflow_free d q (e # es) =
     (let d' = d + (if dequeued_ev e then 1 else 0);
          q' = q + (if enqueued_ev e then 1 else 0)
      in d' \<le> q' \<and> underflow_free d' q' es)"

text \<open>
  What holds whenever the worker is at the top of its loop: one timestamp was dequeued
  per frame, every timestamp enqueued belongs to a packet received in full, the count of
  dequeued timestamps has stayed below the count of enqueued ones throughout if it is
  below it now, and it is below it as long as the input has not ended.
\<close>

definition loop_inv :: "worker \<Rightarrow> bool" where
  "loop_inv w \<longleftrightarrow>
     timestamps_dequeued (events w) = frames_emitted (events w)
     \<and> timestamps_enqueued (events w) = packets_received (events w)
     \<and> (no_underflow (events w) \<longleftrightarrow>
          timestamps_dequeued (events w) \<le> timestamps_enqueued (events w))
     \<and> (incoming_stream w \<longrightarrow>
          timestamps_dequeued (events w) \<le> timestamps_enqueued (events w))"

text \<open>
  After a \<^verbatim>\<open>break\<close> one timestamp may belong to a packet that was cut short; then
  \<^verbatim>\<open>ret\<close> is the 0 that \<^verbatim>\<open>enqueue\<close> returned.
\<close>

definition exit_inv :: "worker \<Rightarrow> bool" where
  "exit_inv w \<longleftrightarrow>
     timestamps_dequeued (events w) = frames_emitted (events w)
     \<and> packets_received (events w) \<le> timestamps_enqueued (events w)
     \<and> timestamps_enqueued (events w) \<le> packets_received (events w) + 1
     \<and> (timestamps_enqueued (events w) \<noteq> packets_received (events w) \<longrightarrow> ret w = 0)
     \<and> (no_underflow (events w) \<longleftrightarrow>
          timestamps_dequeued (events w) \<le> timestamps_enqueued (events w))
     \<and> (incoming_stream w \<longrightarrow>
          timestamps_dequeued (events w) \<le> timestamps_enqueued (events w))"

section \<open>Concrete inputs\<close>

definition handler0 :: camera_handler where
  "handler0 = \<lparr>requests = [\<lparr>status = RequestPending, cookie = 0\<rparr>,
                            \<lparr>status = RequestPending, cookie = 1\<rparr>,
                            \<lparr>status = RequestPending, cookie = 2\<rparr>,
                            \<lparr>status = RequestPending, cookie = 3\<rparr>],
               mmap_buffers = [4096, 8192, 12288, 16384],
               next_req_idx = 3, frame_bytes = 3110400, dma_frame_buffers = 4\<rparr>"

definition node0 :: node where
  "node0 = \<lparr>events = [], running = 1, sockfd = 5, cam = handler0\<rparr>"


text \<open>A whole packet with timestamp \<open>ts\<close> and payload \<open>bs\<close>, after which
  \<^verbatim>\<open>recv_frame\<close> returns \<open>r\<close>.\<close>

definition pkt :: "byte list \<Rightarrow> byte list \<Rightarrow> int \<Rightarrow> iter_env" where
  "pkt ts bs r =
     \<lparr>ts_size = 8, ts_bytes = ts, flush_ret = 0, enqueue_ret = 0, fs_size = 4,
      frame_size = of_nat (length bs), payload_size = int (length bs), payload = bs,
      decode_ret = 0, recv_frame_ret = r\<rparr>"

definition ts1 :: "byte list" where "ts1 = [0, 0, 0, 0, 0, 0, 0, 1]"
definition ts2 :: "byte list" where "ts2 = [0, 0, 0, 0, 0, 0, 0, 2]"

section \<open>Properties of the camera node\<close>

lemma events_emit [simp]: "events (emit e s) = events s @ [e]"
  by (simp add: emit_def)

lemma emit_node_fields [simp]:
  "running (emit e p) = running p" "sockfd (emit e p) = sockfd p" "cam (emit e p) = cam p"
  by (simp_all add: emit_def)

lemma added_append [simp]: "added old (old @ evs) = evs"
  by (simp add: added_def)

lemma added_self [simp]: "added old old = []"
  by (simp add: added_def)

lemmas int_defs = c_int_def INT_MIN_def INT_MAX_def

subsection \<open>The size of a frame\<close>

lemma frame_bytes_exact:
  assumes "frame_width c * frame_height c + 2 * (frame_width c * frame_height c div 4) < 2 ^ 31"
  shows "frame_bytes (init_frame_config c h)
         = int (frame_width c * frame_height c + 2 * (frame_width c * frame_height c div 4))"
proof -
  define n where "n = frame_width c * frame_height c"
  define y :: "32 word" where "y = of_nat n"
  have s: "n + 2 * (n div 4) < 2 ^ 31" using assms by (simp add: n_def)
  then have n: "n < 2 ^ 32" by simp
  have uy: "unat y = n" using n by (simp add: y_def unat_of_nat)
  have uu: "unat (y div 4) = n div 4" by (simp add: unat_div uy)
  have "unat y + unat (y div 4) < 2 ^ LENGTH(32)" using s uy uu by simp
  then have "unat (y + y div 4) = unat y + unat (y div 4)"
    by (rule unat_add_lem [THEN iffD1])
  then have a1: "unat (y + y div 4) = n + n div 4"
    using uy uu by simp
  have "unat (y + y div 4) + unat (y div 4) < 2 ^ LENGTH(32)" using s a1 uu by simp
  then have "unat (y + y div 4 + y div 4) = unat (y + y div 4) + unat (y div 4)"
    by (rule unat_add_lem [THEN iffD1])
  then have "unat (y + y div 4 + y div 4) = n + n div 4 + n div 4"
    using a1 uu by simp
  then have u: "uint (y + y div 4 + y div 4) = int (n + 2 * (n div 4))"
    by (simp add: uint_nat)
  have "sint (y + y div 4 + y div 4) = signed_take_bit 31 (uint (y + y div 4 + y div 4))"
    by (simp add: sint_uint)
  also have "\<dots> = int (n + 2 * (n div 4))"
    unfolding u using s by (intro signed_take_bit_int_eq_self) simp_all
  finally show ?thesis
    by (simp add: init_frame_config_def Let_def n_def y_def)
qed

lemma yuv_arith: "(n::nat) + 2 * (n div 4) = n * 3 div 2 \<longleftrightarrow> n mod 4 < 2"
  by presburger

text \<open>
  Claim C9, as stated: for every width \<open>W\<close> and height \<open>H\<close> the size computed by
  \<^verbatim>\<open>init_frame_config\<close>, \<open>W*H\<close> plus two planes of \<open>W*H/4\<close>, is \<open>W*H*3/2\<close>.
  It fails for a 2 by 3 frame: each chroma plane is \<open>6 / 4 = 1\<close> byte, the sum is 8,
  and \<open>2*3*3/2\<close> is 9.
\<close>

theorem frame_bytes_counterexample:
  "frame_bytes (init_frame_config \<lparr>dma_buffers = 4, frame_width = 2, frame_height = 3\<rparr> handler0) = 8
   \<and> frame_bytes (init_frame_config \<lparr>dma_buffers = 4, frame_width = 2, frame_height = 3\<rparr> handler0)
       \<noteq> int (2 * 3 * 3 div 2)"
  by (simp add: init_frame_config_def Let_def)

text \<open>
  Claim C9, amended: when \<open>W*H*3/2\<close> fits a C \<^verbatim>\<open>int\<close>, the size computed is
  \<open>W*H*3/2\<close> (rounded down) exactly when \<open>W*H\<close> leaves remainder 0 or 1 modulo 4;
  in particular whenever the width and the height are both even.
\<close>

theorem frame_bytes_yuv420:
  assumes "frame_width c * frame_height c * 3 div 2 < 2 ^ 31"
  shows "(frame_bytes (init_frame_config c h) = int (frame_width c * frame_height c * 3 div 2)
            \<longleftrightarrow> frame_width c * frame_height c mod 4 < 2)
         \<and> (even (frame_width c) \<and> even (frame_height c) \<longrightarrow>
              frame_bytes (init_frame_config c h) = int (frame_width c * frame_height c * 3 div 2))"
proof -
  define n where "n = frame_width c * frame_height c"
  have "n + 2 * (n div 4) < 2 ^ 31" using assms unfolding n_def by presburger
  then have fb: "frame_bytes (init_frame_config c h) = int (n + 2 * (n div 4))"
    unfolding n_def by (rule frame_bytes_exact)
  have eq: "(int (n + 2 * (n div 4)) = int (n * 3 div 2)) \<longleftrightarrow> n mod 4 < 2"
    by (simp only: of_nat_eq_iff yuv_arith)
  have "n mod 4 = 0" if "even (frame_width c)" "even (frame_height c)"
  proof -
    from that obtain a b where "frame_width c = 2 * a" "frame_height c = 2 * b"
      by (auto elim!: evenE)
    then show ?thesis by (simp add: n_def)
  qed
  then show ?thesis using fb eq unfolding n_def by auto
qed

theorem frame_bytes_yuv420_witness:
  "frame_bytes (init_frame_config \<lparr>dma_buffers = 4, frame_width = 1920, frame_height = 1080\<rparr> handler0)
     = 3110400"
proof -
  let ?c = "\<lparr>dma_buffers = 4, frame_width = 1920, frame_height = 1080\<rparr>"
  have h: "frame_width ?c * frame_height ?c * 3 div 2 < 2 ^ 31" by simp
  show ?thesis using frame_bytes_yuv420 [OF h, of handler0] by simp
qed

subsection \<open>queue\_request\<close>

text \<open>
  Claim C1: \<^verbatim>\<open>queue_request\<close> throws "Buffer is not ready for requeuing"
  (\<open>BufferNotReady\<close>) if and only if the value read from the semaphore is greater than
  \<^verbatim>\<open>dma_frame_buffers_ - 2\<close>. With a count of \<open>N - 2\<close> the check passes and the
  request at the cursor is handed to the camera; with a count of \<open>N - 1\<close> the call
  throws, having read the semaphore and logged and nothing else. (The subtraction must
  not overflow: for \<open>N < INT_MIN + 2\<close> the C++ has no defined behaviour.)
\<close>

theorem queue_request_backpressure:
  "c_int (dma_frame_buffers (cam p) - 2) \<Longrightarrow>
     (fst (queue_request enqueued_bufs vendor_ret p) = Some BufferNotReady
        \<longleftrightarrow> enqueued_bufs > dma_frame_buffers (cam p) - 2)
   \<and> (enqueued_bufs = dma_frame_buffers (cam p) - 2
        \<and> 0 \<le> next_req_idx (cam p) \<and> next_req_idx (cam p) < int (length (requests (cam p)))
      \<longrightarrow> fst (queue_request enqueued_bufs vendor_ret p) \<noteq> Some BufferNotReady
        \<and> QueueRequest (cookie (requests (cam p) ! nat (next_req_idx (cam p))))
            \<in> set (added (events p) (events (snd (queue_request enqueued_bufs vendor_ret p)))))
   \<and> (enqueued_bufs = dma_frame_buffers (cam p) - 1
      \<longrightarrow> queue_request enqueued_bufs vendor_ret p
            = (Some BufferNotReady,
               p\<lparr>events := events p @ [SemGetValue, Log ERROR ''Buffer is not ready for requeuing'']\<rparr>))"
  by (auto simp: queue_request_def Let_def emit_def added_def)

theorem queue_request_backpressure_witness:
  "c_int (dma_frame_buffers (cam node0) - 2)
   \<and> fst (queue_request 2 0 node0) \<noteq> Some BufferNotReady
   \<and> QueueRequest 3 \<in> set (events (snd (queue_request 2 0 node0)))
   \<and> queue_request 3 0 node0
       = (Some BufferNotReady,
          node0\<lparr>events := [SemGetValue, Log ERROR ''Buffer is not ready for requeuing'']\<rparr>)"
proof -
  have h: "c_int (dma_frame_buffers (cam node0) - 2)"
    by (simp add: node0_def handler0_def int_defs)
  show ?thesis
    using h queue_request_backpressure [OF h, of 2 0] queue_request_backpressure [OF h, of 3 0]
    by (simp add: node0_def handler0_def added_def)
qed

text \<open>
  Claim C4: \<^verbatim>\<open>queue_request\<close> submits \<^verbatim>\<open>requests_[next_req_idx_]\<close> and
  advances the cursor by one modulo the number of requests when the camera accepts the
  request: whenever the count read is at most \<open>N - 2\<close>, the cursor is an index of the
  ring and the camera returns a non-negative value, the call returns normally, having
  made exactly that submission, with the cursor one further. When the camera refuses the
  same request the call throws "Failed to queue request"; when the count is above
  \<open>N - 2\<close> it throws "Buffer is not ready for requeuing" without a submission. Every
  call that does not return normally leaves the handler, the cursor with it, as it was,
  and only a call that returns normally moves the cursor. (The arithmetic on
  \<^verbatim>\<open>int\<close> must not overflow.)
\<close>

theorem queue_request_cursor:
  "(c_int (dma_frame_buffers (cam p) - 2) \<and> enqueued_bufs \<le> dma_frame_buffers (cam p) - 2
      \<and> 0 \<le> next_req_idx (cam p) \<and> next_req_idx (cam p) < int (length (requests (cam p)))
      \<and> c_int (next_req_idx (cam p) + 1) \<and> 0 \<le> vendor_ret \<longrightarrow>
      queue_request enqueued_bufs vendor_ret p
        = (None,
           p\<lparr>events := events p @
                [SemGetValue,
                 QueueRequest (cookie (requests (cam p) ! nat (next_req_idx (cam p))))],
             cam := (cam p)\<lparr>next_req_idx :=
                      (next_req_idx (cam p) + 1) mod int (length (requests (cam p)))\<rparr>\<rparr>))
   \<and> (c_int (dma_frame_buffers (cam p) - 2) \<and> enqueued_bufs \<le> dma_frame_buffers (cam p) - 2
      \<and> 0 \<le> next_req_idx (cam p) \<and> next_req_idx (cam p) < int (length (requests (cam p)))
      \<and> vendor_ret < 0 \<longrightarrow>
      queue_request enqueued_bufs vendor_ret p
        = (Some QueueFailed,
           p\<lparr>events := events p @
                [SemGetValue,
                 QueueRequest (cookie (requests (cam p) ! nat (next_req_idx (cam p)))),
                 Log ERROR ''Failed to queue request'']\<rparr>))
   \<and> (c_int (dma_frame_buffers (cam p) - 2) \<and> enqueued_bufs > dma_frame_buffers (cam p) - 2 \<longrightarrow>
      queue_request enqueued_bufs vendor_ret p
        = (Some BufferNotReady,
           p\<lparr>events := events p @
                [SemGetValue, Log ERROR ''Buffer is not ready for requeuing'']\<rparr>))
   \<and> (fst (queue_request enqueued_bufs vendor_ret p) = None \<longrightarrow>
      events (snd (queue_request enqueued_bufs vendor_ret p))
        = events p @ [SemGetValue, QueueRequest (cookie (requests (cam p) ! nat (next_req_idx (cam p))))]
      \<and> 0 \<le> vendor_ret
      \<and> next_req_idx (cam (snd (queue_request enqueued_bufs vendor_ret p)))
          = (next_req_idx (cam p) + 1) mod int (length (requests (cam p))))
   \<and> (fst (queue_request enqueued_bufs vendor_ret p) = Some QueueFailed \<longrightarrow>
      events (snd (queue_request enqueued_bufs vendor_ret p))
        = events p @ [SemGetValue, QueueRequest (cookie (requests (cam p) ! nat (next_req_idx (cam p)))),
                      Log ERROR ''Failed to queue request''])
   \<and> (fst (queue_request enqueued_bufs vendor_ret p) \<noteq> None \<longrightarrow>
      cam (snd (queue_request enqueued_bufs vendor_ret p)) = cam p)"
  by (auto simp: queue_request_def Let_def emit_def)

theorem queue_request_cursor_witness:
  "queue_request 0 0 node0
     = (None, node0\<lparr>events := [SemGetValue, QueueRequest 3],
                     cam := handler0\<lparr>next_req_idx := 0\<rparr>\<rparr>)
   \<and> queue_request 2 0 (node0\<lparr>cam := handler0\<lparr>next_req_idx := 1\<rparr>\<rparr>)
     = (None, node0\<lparr>events := [SemGetValue, QueueRequest 1],
                     cam := handler0\<lparr>next_req_idx := 2\<rparr>\<rparr>)
   \<and> queue_request 1 (- 1) node0
     = (Some QueueFailed,
        node0\<lparr>events := [SemGetValue, QueueRequest 3, Log ERROR ''Failed to queue request'']\<rparr>)
   \<and> queue_request 3 0 node0
     = (Some BufferNotReady,
        node0\<lparr>events := [SemGetValue, Log ERROR ''Buffer is not ready for requeuing'']\<rparr>)
   \<and> next_req_idx (cam (snd (queue_request 1 (- 1) node0))) = 3
   \<and> next_req_idx (cam (snd (queue_request 3 0 node0))) = 3"
proof -
  let ?q = "node0\<lparr>cam := handler0\<lparr>next_req_idx := 1\<rparr>\<rparr>"
  have a: "queue_request 0 0 node0
     = (None, node0\<lparr>events := [SemGetValue, QueueRequest 3],
                     cam := handler0\<lparr>next_req_idx := 0\<rparr>\<rparr>)"
    using queue_request_cursor [of node0 0 0, THEN conjunct1]
    by (simp add: node0_def handler0_def int_defs)
  have b: "queue_request 2 0 ?q
     = (None, node0\<lparr>events := [SemGetValue, QueueRequest 1],
                     cam := handler0\<lparr>next_req_idx := 2\<rparr>\<rparr>)"
    using queue_request_cursor [of ?q 2 0, THEN conjunct1]
    by (simp add: node0_def handler0_def int_defs)
  have c: "queue_request 1 (- 1) node0
     = (Some QueueFailed,
        node0\<lparr>events := [SemGetValue, QueueRequest 3, Log ERROR ''Failed to queue request'']\<rparr>)"
    using queue_request_cursor [of node0 1 "- 1", THEN conjunct2, THEN conjunct1]
    by (simp add: node0_def handler0_def int_defs)
  have d: "queue_request 3 0 node0
     = (Some BufferNotReady,
        node0\<lparr>events := [SemGetValue, Log ERROR ''Buffer is not ready for requeuing'']\<rparr>)"
    using queue_request_cursor [of node0 3 0, THEN conjunct2, THEN conjunct2, THEN conjunct1]
    by (simp add: node0_def handler0_def int_defs)
  have e: "next_req_idx (cam (snd (queue_request 1 (- 1) node0))) = 3"
    unfolding c by (simp add: node0_def handler0_def)
  have f: "next_req_idx (cam (snd (queue_request 3 0 node0))) = 3"
    unfolding d by (simp add: node0_def handler0_def)
  show ?thesis using a b c d e f by (simp only: simp_thms)
qed

subsection \<open>request\_complete\<close>

text \<open>
  Claim C3: for a cancelled request the completion callback returns at once and leaves
  the whole state as it was: it calls neither the queue nor the semaphore nor the
  request. Otherwise (the cookie being an index of the mapping table) it logs, enqueues
  the pointer \<^verbatim>\<open>mmap_buffers_[cookie]\<close>, posts the semaphore and reuses the request,
  in this order, and does nothing else.
\<close>

theorem request_complete_steps:
  "(status r = RequestCancelled \<longrightarrow> request_complete r p = (None, p))
   \<and> (status r \<noteq> RequestCancelled \<and> cookie r < length (mmap_buffers (cam p)) \<longrightarrow>
        request_complete r p
          = (None, p\<lparr>events := events p @
               [Log INFO ''Request completed'',
                QueueEnqueue (mmap_buffers (cam p) ! cookie r),
                SemPost,
                RequestReuse (cookie r)]\<rparr>))"
  by (simp add: request_complete_def Let_def emit_def)

theorem request_complete_steps_witness:
  "request_complete \<lparr>status = RequestCancelled, cookie = 2\<rparr> node0 = (None, node0)
   \<and> request_complete \<lparr>status = RequestComplete, cookie = 2\<rparr> node0
       = (None, node0\<lparr>events := [Log INFO ''Request completed'', QueueEnqueue 12288, SemPost,
                                  RequestReuse 2]\<rparr>)"
  using request_complete_steps [of "\<lparr>status = RequestCancelled, cookie = 2\<rparr>" node0]
    request_complete_steps [of "\<lparr>status = RequestComplete, cookie = 2\<rparr>" node0]
  by (simp add: node0_def handler0_def)

subsection \<open>The signal handlers\<close>



text \<open>
  Claim C10: the watchdog's handler is idempotent. It closes the socket and sets
  \<^verbatim>\<open>sockfd\<close> to -1 only on \<^verbatim>\<open>SIGUSR2\<close> with \<^verbatim>\<open>sockfd >= 0\<close>; run twice
  in succession it leaves the state of one run; with \<^verbatim>\<open>sockfd\<close> negative it changes
  nothing.
\<close>

theorem socket_disconnect_idempotent:
  "socket_disconnect_handler signo (socket_disconnect_handler signo p)
     = socket_disconnect_handler signo p
   \<and> (sockfd p < 0 \<longrightarrow> socket_disconnect_handler signo p = p)
   \<and> (signo = SIGUSR2 \<and> sockfd p \<ge> 0 \<longrightarrow>
        socket_disconnect_handler signo p
          = p\<lparr>events := events p @ [Close (sockfd p), Log INFO ''Socket disconnected by timer''],
               sockfd := - 1\<rparr>)"
  by (simp add: socket_disconnect_handler_def emit_def)

theorem socket_disconnect_idempotent_witness:
  "socket_disconnect_handler SIGUSR2 node0
     = node0\<lparr>events := [Close 5, Log INFO ''Socket disconnected by timer''], sockfd := - 1\<rparr>
   \<and> socket_disconnect_handler SIGUSR2 (socket_disconnect_handler SIGUSR2 node0)
     = socket_disconnect_handler SIGUSR2 node0
   \<and> socket_disconnect_handler SIGUSR2 (node0\<lparr>sockfd := - 1\<rparr>) = node0\<lparr>sockfd := - 1\<rparr>"
proof -
  note t = socket_disconnect_idempotent [of SIGUSR2 node0]
  have a: "socket_disconnect_handler SIGUSR2 node0
     = node0\<lparr>events := [Close 5, Log INFO ''Socket disconnected by timer''], sockfd := - 1\<rparr>"
    using t [THEN conjunct2, THEN conjunct2] by (simp add: node0_def)
  have b: "socket_disconnect_handler SIGUSR2 (node0\<lparr>sockfd := - 1\<rparr>) = node0\<lparr>sockfd := - 1\<rparr>"
    using socket_disconnect_idempotent [of SIGUSR2 "node0\<lparr>sockfd := - 1\<rparr>", THEN conjunct2, THEN conjunct1]
    by simp
  show ?thesis using a b t [THEN conjunct1] by blast
qed

subsection \<open>stream\_pkt\<close>

lemma bytes_written_append [simp]:
  "bytes_written (xs @ ys) = bytes_written xs @ bytes_written ys"
  by (induction xs rule: bytes_written.induct) simp_all

lemma bytes_written_to_append [simp]:
  "bytes_written_to fd (xs @ ys) = bytes_written_to fd xs @ bytes_written_to fd ys"
  by (induction fd xs rule: bytes_written_to.induct) simp_all







text \<open>
  The call does return: with the socket open and no watchdog signal, when every write
  takes at least one byte, as many passes as there are bytes left are enough.
\<close>

lemma stream_pkt_loop_returns:
  "sockfd p \<ge> 0 \<Longrightarrow> length data - t \<le> length es \<Longrightarrow>
   list_all (\<lambda>e. \<not> sigusr2 e \<and> (case write_res e of Wrote n \<Rightarrow> 0 < n | WriteFailed en \<Rightarrow> False)) es \<Longrightarrow>
     fst (stream_pkt_loop es data t p) = Some 0"
proof (induction es arbitrary: t p)
  case Nil
  then show ?case by simp
next
  case (Cons e es)
  show ?case
  proof (cases "t < length data")
    case False
    then show ?thesis by simp
  next
    case True
    from Cons.prems(3) obtain n where n: "write_res e = Wrote n" "0 < n" "\<not> sigusr2 e"
      by (cases "write_res e") auto
    have rc: "reconnect e p = (0, p)"
      using Cons.prems(1) n(3) by (simp add: reconnect_def pending_signal_def)
    define chunk where "chunk = take n (drop t data)"
    have len: "0 < length chunk" using True n(2) by (simp add: chunk_def)
    have step: "stream_pkt_loop (e # es) data t p
        = stream_pkt_loop es data (t + length chunk) (emit (Write (sockfd p) chunk) p)"
      using True rc n(1) by (simp add: Let_def chunk_def)
    have "fst (stream_pkt_loop es data (t + length chunk) (emit (Write (sockfd p) chunk) p)) = Some 0"
    proof (rule Cons.IH)
      show "0 \<le> sockfd (emit (Write (sockfd p) chunk) p)" using Cons.prems(1) by simp
      show "length data - (t + length chunk) \<le> length es"
        using Cons.prems(2) len by (simp only: length_Cons)
      show "list_all (\<lambda>e. \<not> sigusr2 e \<and> (case write_res e of Wrote n \<Rightarrow> 0 < n | WriteFailed en \<Rightarrow> False)) es"
        using Cons.prems(3) by simp
    qed
    then show ?thesis by (simp only: step)
  qed
qed










section \<open>Properties of the server worker\<close>

lemma emit_worker_fields [simp]:
  "incoming_stream (emit e w) = incoming_stream w" "new_frame (emit e w) = new_frame w"
  "ret (emit e w) = ret w" "timestamp_queue (emit e w) = timestamp_queue w"
  "sockfd_srv (emit e w) = sockfd_srv w" "clientfd (emit e w) = clientfd w"
  by (simp_all add: emit_def)

lemma counters_append [simp]:
  "timestamps_enqueued (xs @ ys) = timestamps_enqueued xs + timestamps_enqueued ys"
  "timestamps_dequeued (xs @ ys) = timestamps_dequeued xs + timestamps_dequeued ys"
  "frames_emitted (xs @ ys) = frames_emitted xs + frames_emitted ys"
  "packets_received (xs @ ys) = packets_received xs + packets_received ys"
  by (simp_all add: timestamps_enqueued_def timestamps_dequeued_def
      frames_emitted_def packets_received_def)

lemma counters_Cons [simp]:
  "timestamps_enqueued (e # es) = (if enqueued_ev e then 1 else 0) + timestamps_enqueued es"
  "timestamps_dequeued (e # es) = (if dequeued_ev e then 1 else 0) + timestamps_dequeued es"
  "frames_emitted (e # es) = (if frame_ev e then 1 else 0) + frames_emitted es"
  "packets_received (e # es) = (if packet_ev e then 1 else 0) + packets_received es"
  by (simp_all add: timestamps_enqueued_def timestamps_dequeued_def
      frames_emitted_def packets_received_def)

lemma counters_Nil [simp]:
  "timestamps_enqueued [] = 0" "timestamps_dequeued [] = 0"
  "frames_emitted [] = 0" "packets_received [] = 0"
  by (simp_all add: timestamps_enqueued_def timestamps_dequeued_def
      frames_emitted_def packets_received_def)

lemma no_underflow_iff:
  "no_underflow tr \<longleftrightarrow>
     (\<forall>n. timestamps_dequeued (take n tr) \<le> timestamps_enqueued (take n tr))"
proof
  assume a: "no_underflow tr"
  show "\<forall>n. timestamps_dequeued (take n tr) \<le> timestamps_enqueued (take n tr)"
  proof
    fix n
    have "take n tr = take (min n (length tr)) tr" by (simp add: min_def)
    moreover have "min n (length tr) \<in> {..length tr}" by simp
    ultimately show "timestamps_dequeued (take n tr) \<le> timestamps_enqueued (take n tr)"
      using a unfolding no_underflow_def by metis
  qed
next
  assume "\<forall>n. timestamps_dequeued (take n tr) \<le> timestamps_enqueued (take n tr)"
  then show "no_underflow tr" by (simp add: no_underflow_def)
qed

lemma no_underflow_Nil [simp]: "no_underflow []"
  by (simp add: no_underflow_def)

lemma no_underflow_snoc:
  "no_underflow (tr @ [e]) \<longleftrightarrow>
     no_underflow tr \<and> timestamps_dequeued (tr @ [e]) \<le> timestamps_enqueued (tr @ [e])"
proof
  assume a: "no_underflow (tr @ [e])"
  have "timestamps_dequeued (take n tr) \<le> timestamps_enqueued (take n tr)" for n
  proof -
    have "take (min n (length tr)) (tr @ [e]) = take n tr" by (simp add: min_def)
    then show ?thesis using a unfolding no_underflow_iff by metis
  qed
  moreover have "timestamps_dequeued (tr @ [e]) \<le> timestamps_enqueued (tr @ [e])"
    using a [unfolded no_underflow_iff, rule_format, of "Suc (length tr)"] by simp
  ultimately show "no_underflow tr \<and> timestamps_dequeued (tr @ [e]) \<le> timestamps_enqueued (tr @ [e])"
    by (simp add: no_underflow_iff)
next
  assume a: "no_underflow tr \<and> timestamps_dequeued (tr @ [e]) \<le> timestamps_enqueued (tr @ [e])"
  show "no_underflow (tr @ [e])"
    unfolding no_underflow_iff
  proof
    fix n
    show "timestamps_dequeued (take n (tr @ [e])) \<le> timestamps_enqueued (take n (tr @ [e]))"
    proof (cases "n \<le> length tr")
      case True
      then have "take n (tr @ [e]) = take n tr" by simp
      then show ?thesis using a unfolding no_underflow_iff by simp
    next
      case False
      then have "take n (tr @ [e]) = tr @ [e]" by simp
      then show ?thesis using a by (simp only:)
    qed
  qed
qed

lemma no_underflow_append [simp]:
  "no_underflow (tr @ es) \<longleftrightarrow>
     no_underflow tr \<and> underflow_free (timestamps_dequeued tr) (timestamps_enqueued tr) es"
proof (induction es arbitrary: tr)
  case Nil
  then show ?case by simp
next
  case (Cons e es)
  have "no_underflow (tr @ e # es) \<longleftrightarrow> no_underflow ((tr @ [e]) @ es)" by simp
  also have "\<dots> \<longleftrightarrow> no_underflow (tr @ [e])
      \<and> underflow_free (timestamps_dequeued (tr @ [e])) (timestamps_enqueued (tr @ [e])) es"
    by (rule Cons.IH)
  finally show ?case by (simp add: no_underflow_snoc Let_def conj_ac)
qed

lemma loop_inv_entry: "loop_inv (loop_entry sfd cfd)"
  by (simp add: loop_inv_def loop_entry_def)

lemma loop_inv_exit: "loop_inv w \<Longrightarrow> exit_inv w"
  by (auto simp: loop_inv_def exit_inv_def)

lemma input_block_inv:
  assumes "loop_inv w" "incoming_stream w" "input_block B e w = (w', fl)"
  shows "(fl = Break \<longrightarrow> exit_inv w')
       \<and> (fl \<noteq> Break \<longrightarrow> loop_inv w')
       \<and> (fl = Fallthrough \<longrightarrow>
            timestamps_dequeued (events w') < timestamps_enqueued (events w'))
       \<and> new_frame w' = new_frame w"
  using assms
  by (auto simp: input_block_def enqueue_def Let_def loop_inv_def exit_inv_def
      split: if_splits)

lemma frame_block_inv:
  assumes "loop_inv w"
    "incoming_stream w \<longrightarrow> timestamps_dequeued (events w) < timestamps_enqueued (events w)"
    "frame_block e w = (w', fl)"
  shows "loop_inv w' \<and> fl \<noteq> Fallthrough"
  using assms
  by (auto simp: frame_block_def dequeue_def Let_def loop_inv_def
      EAGAIN_def ENODATA_def split: if_splits list.splits)

lemma loop_body_inv:
  assumes "loop_inv w" "loop_body B e w = (w', fl)"
  shows "(fl = Break \<longrightarrow> exit_inv w') \<and> (fl \<noteq> Break \<longrightarrow> loop_inv w')"
proof (cases "incoming_stream w")
  case True
  obtain w1 fl1 where i: "input_block B e w = (w1, fl1)" by (cases "input_block B e w")
  note inv = input_block_inv [OF assms(1) True i]
  show ?thesis
  proof (cases "fl1 = Fallthrough \<and> new_frame w1")
    case ft: True
    then have f: "frame_block e w1 = (w', fl)"
      using assms(2) True i by (simp add: loop_body_def)
    have "loop_inv w1"
      "incoming_stream w1 \<longrightarrow> timestamps_dequeued (events w1) < timestamps_enqueued (events w1)"
      using inv ft by simp_all
    from frame_block_inv [OF this f] show ?thesis by (simp add: loop_inv_exit)
  next
    case False
    then have "w' = w1" "fl = (if fl1 = Fallthrough then Continue else fl1)"
      using assms(2) True i by (cases fl1; simp add: loop_body_def)+
    then show ?thesis using inv by (cases fl1) simp_all
  qed
next
  case False
  show ?thesis
  proof (cases "new_frame w")
    case nf: True
    then have f: "frame_block e w = (w', fl)"
      using assms(2) False by (simp add: loop_body_def)
    from frame_block_inv [OF assms(1) _ f] False show ?thesis by (simp add: loop_inv_exit)
  next
    case nf: False
    then have "w' = w" "fl = Continue" using assms(2) False by (simp_all add: loop_body_def)
    then show ?thesis using assms(1) by simp
  qed
qed

lemma stream_mgr_loop_inv:
  "loop_inv w \<Longrightarrow> stream_mgr_loop B es w = (w', fl) \<Longrightarrow>
     (fl = Break \<longrightarrow> exit_inv w') \<and> (fl \<noteq> Break \<longrightarrow> loop_inv w' \<and> fl = Continue)"
proof (induction es arbitrary: w)
  case Nil
  then show ?case by simp
next
  case (Cons e es)
  obtain w1 fl1 where b: "loop_body B e w = (w1, fl1)" by (cases "loop_body B e w")
  note inv = loop_body_inv [OF Cons.prems(1) b]
  show ?case
  proof (cases "fl1 = Break")
    case True
    then have "w' = w1" "fl = Break" using Cons.prems(2) b by simp_all
    then show ?thesis using inv True by simp
  next
    case False
    then have "stream_mgr_loop B es w1 = (w', fl)"
      using Cons.prems(2) b by (cases fl1) simp_all
    moreover have "loop_inv w1" using inv False by simp
    ultimately show ?thesis by (rule Cons.IH [rotated])
  qed
qed

lemmas worker_run_defs =
  loop_body_def input_block_def frame_block_def enqueue_def dequeue_def cleanup_def
  stream_mgr_def loop_entry_def pkt_def ts1_def ts2_def EOSTREAM_def emit_def Let_def
  EAGAIN_def ENODATA_def

subsection \<open>The timestamp queue\<close>

text \<open>
  Claim C2, as stated: exactly one timestamp is enqueued per input packet whose
  timestamp, size and payload were all received in full; one timestamp is dequeued per
  frame the decoder emits; in every reachable state no more timestamps were dequeued
  than enqueued, with equality when the worker terminates after draining the decoder.
  It fails in two ways. First, the worker enqueues the timestamp before it reads the
  size: when a first packet arrives whole and of the second only the timestamp and two
  bytes of the size, two timestamps have been enqueued and one packet was received.
  Second, the worker dequeues at every frame without looking at what the queue holds:
  when the decoder emits two frames for the one packet it was given (the second after
  the end of the stream) and then \<^verbatim>\<open>ENODATA\<close>, the worker terminates having
  dequeued twice and enqueued once.
\<close>

theorem timestamp_queue_counterexample:
  "timestamps_enqueued (events (fst (stream_mgr_loop 1024
       [pkt ts1 [9, 9, 9] EAGAIN, (pkt ts2 [8, 8] 0)\<lparr>fs_size := 2\<rparr>] (loop_entry 3 4)))) = 2
   \<and> packets_received (events (fst (stream_mgr_loop 1024
       [pkt ts1 [9, 9, 9] EAGAIN, (pkt ts2 [8, 8] 0)\<lparr>fs_size := 2\<rparr>] (loop_entry 3 4)))) = 1
   \<and> snd (stream_mgr_loop 1024
       [pkt ts1 [9, 9, 9] 0, pkt EOSTREAM [] 0, pkt [] [] 0, pkt [] [] ENODATA]
       (loop_entry 3 4)) = Break
   \<and> ret (fst (stream_mgr_loop 1024
       [pkt ts1 [9, 9, 9] 0, pkt EOSTREAM [] 0, pkt [] [] 0, pkt [] [] ENODATA]
       (loop_entry 3 4))) = ENODATA
   \<and> timestamps_enqueued (events (fst (stream_mgr_loop 1024
       [pkt ts1 [9, 9, 9] 0, pkt EOSTREAM [] 0, pkt [] [] 0, pkt [] [] ENODATA]
       (loop_entry 3 4)))) = 1
   \<and> timestamps_dequeued (events (fst (stream_mgr_loop 1024
       [pkt ts1 [9, 9, 9] 0, pkt EOSTREAM [] 0, pkt [] [] 0, pkt [] [] ENODATA]
       (loop_entry 3 4)))) = 2"
  by (simp add: worker_run_defs)

text \<open>
  Claim C2, amended: a timestamp is enqueued as soon as its eight bytes are received
  (and are not the end-of-stream mark), before the size and the payload are read, so the
  number of timestamps enqueued is the number of packets received in full, or one more
  once the worker has left the loop in the middle of a packet. Exactly one timestamp is
  dequeued per frame the decoder emits. As long as the input has not ended, and in every
  state in which the decoder has emitted no more frames than packets were received, no
  more timestamps have been dequeued than enqueued at any moment of the run; in general
  this has held at every moment exactly when it holds now. When the worker leaves the
  loop with \<^verbatim>\<open>ret == ENODATA\<close>, as many timestamps were dequeued as enqueued
  exactly when the decoder has emitted as many frames as packets were received.
\<close>

theorem timestamp_accounting:
  assumes "stream_mgr_loop B es (loop_entry sfd cfd) = (w, fl)"
  shows "packets_received (events w) \<le> timestamps_enqueued (events w)
       \<and> timestamps_enqueued (events w) \<le> packets_received (events w) + 1
       \<and> (fl = Continue \<longrightarrow> timestamps_enqueued (events w) = packets_received (events w))
       \<and> timestamps_dequeued (events w) = frames_emitted (events w)
       \<and> (incoming_stream w \<longrightarrow> no_underflow (events w))
       \<and> (frames_emitted (events w) \<le> packets_received (events w) \<longrightarrow> no_underflow (events w))
       \<and> (no_underflow (events w) \<longleftrightarrow>
            timestamps_dequeued (events w) \<le> timestamps_enqueued (events w))
       \<and> (fl = Break \<and> ret w = ENODATA \<longrightarrow>
            (timestamps_dequeued (events w) = timestamps_enqueued (events w)
               \<longleftrightarrow> frames_emitted (events w) = packets_received (events w)))"
proof -
  note inv = stream_mgr_loop_inv [OF loop_inv_entry assms]
  show ?thesis
  proof (cases "fl = Break")
    case True
    then have "exit_inv w" using inv by simp
    then show ?thesis
      using True by (auto simp: exit_inv_def ENODATA_def)
  next
    case False
    then have "loop_inv w" "fl = Continue" using inv by simp_all
    then show ?thesis
      by (auto simp: loop_inv_def)
  qed
qed

theorem timestamp_accounting_witness:
  "snd (stream_mgr_loop 1024
          [pkt ts1 [9, 9, 9] EAGAIN, pkt ts2 [8, 8] 0, pkt EOSTREAM [] 0, pkt [] [] 0,
           pkt [] [] ENODATA] (loop_entry 3 4)) = Break
   \<and> ret (fst (stream_mgr_loop 1024
          [pkt ts1 [9, 9, 9] EAGAIN, pkt ts2 [8, 8] 0, pkt EOSTREAM [] 0, pkt [] [] 0,
           pkt [] [] ENODATA] (loop_entry 3 4))) = ENODATA
   \<and> packets_received (events (fst (stream_mgr_loop 1024
          [pkt ts1 [9, 9, 9] EAGAIN, pkt ts2 [8, 8] 0, pkt EOSTREAM [] 0, pkt [] [] 0,
           pkt [] [] ENODATA] (loop_entry 3 4)))) = 2
   \<and> frames_emitted (events (fst (stream_mgr_loop 1024
          [pkt ts1 [9, 9, 9] EAGAIN, pkt ts2 [8, 8] 0, pkt EOSTREAM [] 0, pkt [] [] 0,
           pkt [] [] ENODATA] (loop_entry 3 4)))) = 2
   \<and> timestamps_enqueued (events (fst (stream_mgr_loop 1024
          [pkt ts1 [9, 9, 9] EAGAIN, pkt ts2 [8, 8] 0, pkt EOSTREAM [] 0, pkt [] [] 0,
           pkt [] [] ENODATA] (loop_entry 3 4)))) = 2
   \<and> timestamps_dequeued (events (fst (stream_mgr_loop 1024
          [pkt ts1 [9, 9, 9] EAGAIN, pkt ts2 [8, 8] 0, pkt EOSTREAM [] 0, pkt [] [] 0,
           pkt [] [] ENODATA] (loop_entry 3 4)))) = 2
   \<and> no_underflow (events (fst (stream_mgr_loop 1024
          [pkt ts1 [9, 9, 9] EAGAIN, pkt ts2 [8, 8] 0, pkt EOSTREAM [] 0, pkt [] [] 0,
           pkt [] [] ENODATA] (loop_entry 3 4))))"
proof -
  let ?es = "[pkt ts1 [9, 9, 9] EAGAIN, pkt ts2 [8, 8] 0, pkt EOSTREAM [] 0, pkt [] [] 0,
              pkt [] [] ENODATA]"
  let ?w = "\<lparr>events =
     [RecvTimestamp, TsEnqueue ts1 0, RecvFrameSize, RecvPayload 3,
      Log INFO ''Received frame with %zd bytes from cam %s with timestamp %lu'',
      DecodePacket [9, 9, 9], RecvFrame 11,
      RecvTimestamp, TsEnqueue ts2 0, RecvFrameSize, RecvPayload 2,
      Log INFO ''Received frame with %zd bytes from cam %s with timestamp %lu'',
      DecodePacket [8, 8], RecvFrame 0, Log INFO ''Recvd frame from decoder'',
      TsDequeue (Some ts1),
      Log INFO ''Dequeued timestamp from cam %s with timestamp %lu'',
      RecvTimestamp, Log INFO ''Received end of stream signal'', FlushDecoder,
      RecvFrame 0, Log INFO ''Recvd frame from decoder'', TsDequeue (Some ts2),
      Log INFO ''Dequeued timestamp from cam %s with timestamp %lu'',
      RecvFrame 61, Log INFO ''Recvd EOF from decoder''],
     incoming_stream = False, new_frame = True, ret = 61, timestamp_queue = [],
     sockfd_srv = 3, clientfd = 4\<rparr>"
  have run: "stream_mgr_loop 1024 ?es (loop_entry 3 4) = (?w, Break)"
    by (simp add: worker_run_defs)
  note t = timestamp_accounting [OF run]
  have r: "ret ?w = ENODATA" by (simp add: ENODATA_def)
  have p: "packets_received (events ?w) = 2" by simp
  have f: "frames_emitted (events ?w) = 2" by simp
  have q: "timestamps_enqueued (events ?w) = 2" by simp
  have d: "timestamps_dequeued (events ?w) = 2"
    using t r p f q by simp
  have n: "no_underflow (events ?w)" using t p f by simp
  show ?thesis unfolding run fst_conv snd_conv using r p f q d n by (simp only: simp_thms)
qed

subsection \<open>The end of the stream\<close>







subsection \<open>Oversized frames\<close>

text \<open>
  Claim C7: when the frame size received is greater than
  \<^verbatim>\<open>ENCODED_FRAME_BUF_SIZE\<close>, the worker leaves the loop and runs the cleanup
  (frees the buffer, cleans up decoder and queue, closes both sockets); it has neither
  read the payload nor called \<^verbatim>\<open>decode_packet\<close>.
\<close>

theorem oversized_frame_closes:
  assumes "incoming_stream w" "ts_size e = 8" "ts_bytes e \<noteq> EOSTREAM" "enqueue_ret e = 0"
    "fs_size e = 4" "unat (frame_size e) > B"
  shows "stream_mgr B (e # es) w
           = Some (cleanup (w\<lparr>events := events w @
                      [RecvTimestamp, TsEnqueue (ts_bytes e) 0, RecvFrameSize,
                       Log ERROR ''Received frame size that is larger than the allocated buffer of %d bytes: %d''],
                    ret := 0, timestamp_queue := timestamp_queue w @ [ts_bytes e]\<rparr>))
       \<and> added (events w) (events (the (stream_mgr B (e # es) w)))
           = [RecvTimestamp, TsEnqueue (ts_bytes e) 0, RecvFrameSize,
              Log ERROR ''Received frame size that is larger than the allocated buffer of %d bytes: %d'',
              Free, CleanupDecoder, CleanupQueue]
             @ (if sockfd_srv w \<ge> 0 then [Close (sockfd_srv w)] else [])
             @ (if clientfd w \<ge> 0 then [Close (clientfd w)] else [])
       \<and> \<not> list_ex payload_ev (added (events w) (events (the (stream_mgr B (e # es) w))))"
proof -
  have body: "loop_body B e w
      = (w\<lparr>events := events w @
                      [RecvTimestamp, TsEnqueue (ts_bytes e) 0, RecvFrameSize,
                       Log ERROR ''Received frame size that is larger than the allocated buffer of %d bytes: %d''],
                    ret := 0, timestamp_queue := timestamp_queue w @ [ts_bytes e]\<rparr>, Break)"
    using assms by (simp add: loop_body_def input_block_def enqueue_def Let_def emit_def)
  then have run: "stream_mgr B (e # es) w
           = Some (cleanup (w\<lparr>events := events w @
                      [RecvTimestamp, TsEnqueue (ts_bytes e) 0, RecvFrameSize,
                       Log ERROR ''Received frame size that is larger than the allocated buffer of %d bytes: %d''],
                    ret := 0, timestamp_queue := timestamp_queue w @ [ts_bytes e]\<rparr>))"
    by (simp add: stream_mgr_def)
  show ?thesis
    unfolding run by (simp add: cleanup_def Let_def added_def)
qed

theorem oversized_frame_closes_witness:
  "stream_mgr 2 [pkt ts1 [9, 9, 9] EAGAIN] (loop_entry 3 4)
     = Some \<lparr>events = [RecvTimestamp, TsEnqueue ts1 0, RecvFrameSize,
                       Log ERROR ''Received frame size that is larger than the allocated buffer of %d bytes: %d'',
                       Free, CleanupDecoder, CleanupQueue, Close 3, Close 4],
             incoming_stream = True, new_frame = True, ret = 0, timestamp_queue = [ts1],
             sockfd_srv = 3, clientfd = 4\<rparr>"
proof -
  let ?e = "pkt ts1 [9, 9, 9] EAGAIN"
  have h: "incoming_stream (loop_entry 3 4)" "ts_size ?e = 8" "ts_bytes ?e \<noteq> EOSTREAM"
    "enqueue_ret ?e = 0" "fs_size ?e = 4" "unat (frame_size ?e) > 2"
    by (simp_all add: loop_entry_def pkt_def ts1_def EOSTREAM_def)
  show ?thesis
    using oversized_frame_closes [OF h, of "[]", THEN conjunct1]
    by (simp add: cleanup_def loop_entry_def pkt_def emit_def Let_def)
qed

end
